theory Spec2Isabelle
  imports Main "HOL-Library.Word"
begin

section \<open>The mavrosflight logger interface (logger_interface.h)\<close>

text \<open>
  The header declares the generic class \<open>LoggerInterface<Derived>\<close>, whose ten
  methods forward to the method of the same name of \<open>Derived\<close>, and the class
  \<open>DefaultLogger\<close>, whose methods build one format string and hand it to the C
  library's \<open>fprintf\<close> on \<open>stdout\<close> or \<open>stderr\<close>.
\<close>

subsection \<open>Streams and the process state\<close>

datatype FILE = stdout | stderr

text \<open>
  A stream is the sequence of bytes it has received so far, and an error indicator:
  while it is set, a write transmits nothing.
\<close>

record stream =
  data :: string
  failed :: bool

type_synonym world = "FILE \<Rightarrow> stream"

definition fresh_world :: world where
  "fresh_world = (\<lambda>fs. \<lparr>data = [], failed = False\<rparr>)"

definition emit :: "FILE \<Rightarrow> string \<Rightarrow> world \<Rightarrow> world" where
  "emit fs s w = w(fs := (w fs)\<lparr>data := data (w fs) @ s\<rparr>)"

subsection \<open>Call outcomes\<close>

text \<open>
  A call either returns, or it has no result: the C standard leaves \<open>fprintf\<close>
  undefined on a \<open>%\<close> that ends the format, on an invalid conversion specification,
  on a missing argument, and on a conversion that does not fit its argument.
\<close>

datatype fault =
  Incomplete_conversion | Invalid_conversion | Missing_argument | Undefined_conversion

datatype 'a outcome = Returns 'a | Stuck fault

fun bind_outcome :: "'a outcome \<Rightarrow> ('a \<Rightarrow> 'b outcome) \<Rightarrow> 'b outcome" where
  "bind_outcome (Returns x) f = f x"
| "bind_outcome (Stuck e) f = Stuck e"

subsection \<open>Conversion specifications of the C library\<close>

text \<open>
  After the \<open>%\<close> a conversion specification is, in this order: flags, an optional
  field width (an asterisk or digits), an optional precision (a period, then an
  asterisk or digits), an optional length modifier, and the conversion specifier
  (ISO C, 7.21.6.1). Each of the first four steps passes over what it admits.
\<close>

definition is_flag :: "char \<Rightarrow> bool" where
  "is_flag c = (c \<in> set ''-+ #0'')"

definition is_digit :: "char \<Rightarrow> bool" where
  "is_digit c = (c \<in> set ''0123456789'')"

definition is_length :: "char \<Rightarrow> bool" where
  "is_length c = (c \<in> set ''hljztL'')"

definition is_specifier :: "char \<Rightarrow> bool" where
  "is_specifier c = (c \<in> set ''diouxXfFeEgGaAcspn'')"

fun skip_width :: "string \<Rightarrow> string" where
  "skip_width [] = []"
| "skip_width (c # cs) = (if c = CHR ''*'' then cs else dropWhile is_digit (c # cs))"

fun skip_precision :: "string \<Rightarrow> string" where
  "skip_precision [] = []"
| "skip_precision (c # cs) = (if c = CHR ''.'' then skip_width cs else c # cs)"

fun skip_length :: "string \<Rightarrow> string" where
  "skip_length [] = []"
| "skip_length [a] = (if is_length a then [] else [a])"
| "skip_length (a # b # cs) =
     (if (a = CHR ''h'' \<and> b = CHR ''h'') \<or> (a = CHR ''l'' \<and> b = CHR ''l'') then cs
      else if is_length a then b # cs
      else a # b # cs)"

text \<open>
  A text is a conversion specification (without its \<open>%\<close>) when it ends in a
  conversion specifier and what stands before is flags, width, precision and length
  modifier, with nothing left over.
\<close>

definition valid_spec :: "string \<Rightarrow> bool" where
  "valid_spec p =
     (p \<noteq> [] \<and> is_specifier (last p)
      \<and> skip_length (skip_precision (skip_width (dropWhile is_flag (butlast p)))) = [])"

text \<open>
  The conversion specification at the head of a text: its shortest beginning that is
  one (no conversion specification begins another), if there is any.
\<close>

fun parse_from :: "string \<Rightarrow> string \<Rightarrow> string option" where
  "parse_from seen [] = None"
| "parse_from seen (c # cs) =
     (if valid_spec (seen @ [c]) then Some (seen @ [c]) else parse_from (seen @ [c]) cs)"

definition parse_spec :: "string \<Rightarrow> string option" where
  "parse_spec s = parse_from [] s"

text \<open>
  A conversion takes one argument, and one more for each asterisk (a width or a
  precision given as an argument).
\<close>

definition arity :: "string \<Rightarrow> nat" where
  "arity spec = Suc (count_list spec (CHR ''*''))"

subsection \<open>The formatted-output function of the C library\<close>

text \<open>
  What the library writes for one conversion specification applied to the arguments
  it takes is a parameter: \<open>conv spec args\<close> is that text, and \<open>None\<close> where the
  behaviour is undefined (an argument of the wrong type, a flag the conversion does
  not admit). The arguments \<open>const T&... args\<close> are a list over any type \<open>'a\<close>.
  Every property below holds for every \<open>conv\<close> and every type of arguments. For
  \<open>%n\<close> the library writes nothing; the count it stores goes to memory of the
  caller, which is no part of the streams or of the logger.
\<close>

type_synonym 'a conversion = "string \<Rightarrow> 'a list \<Rightarrow> string option"

definition prepend :: "string \<Rightarrow> fault + string \<Rightarrow> fault + string" where
  "prepend p r = (case r of Inl e \<Rightarrow> Inl e | Inr s \<Rightarrow> Inr (p @ s))"

text \<open>
  The text \<open>fprintf\<close> produces from a format string and its arguments: ordinary
  characters are copied, \<open>%%\<close> writes one \<open>%\<close> and takes no argument, every other
  conversion specification takes the next arguments. Arguments left over when the
  format is exhausted are ignored.
\<close>

function vformat :: "'a conversion \<Rightarrow> string \<Rightarrow> 'a list \<Rightarrow> fault + string" where
  "vformat conv [] args = Inr []"
| "vformat conv (c # rest) args =
     (if c \<noteq> CHR ''%'' then prepend [c] (vformat conv rest args)
      else
        (case rest of
           [] \<Rightarrow> Inl Incomplete_conversion
         | k # rest' \<Rightarrow>
             if k = CHR ''%'' then prepend [CHR ''%''] (vformat conv rest' args)
             else
               (case parse_spec rest of
                  None \<Rightarrow> Inl Invalid_conversion
                | Some spec \<Rightarrow>
                    if length args < arity spec then Inl Missing_argument
                    else
                      (case conv spec (take (arity spec) args) of
                         None \<Rightarrow> Inl Undefined_conversion
                       | Some out \<Rightarrow>
                           prepend out
                             (vformat conv (drop (length spec) rest) (drop (arity spec) args))))))"
  by pat_completeness auto
termination
  by (relation "measure (\<lambda>(conv, fmt, args). length fmt)") auto

declare vformat.simps [simp del]

text \<open>
  \<open>fprintf\<close> returns the number of characters transmitted, or a negative value when
  the stream is in error; then nothing is transmitted.
\<close>

definition fprintf ::
  "'a conversion \<Rightarrow> FILE \<Rightarrow> string \<Rightarrow> 'a list \<Rightarrow> world \<Rightarrow> (int \<times> world) outcome" where
  "fprintf conv fs fmt args w =
     (case vformat conv fmt args of
        Inl e \<Rightarrow> Stuck e
      | Inr s \<Rightarrow> if failed (w fs) then Returns (- 1, w) else Returns (int (length s), emit fs s w))"

subsection \<open>DefaultLogger\<close>

text \<open>The class has no data members: an object of it is a single value.\<close>

datatype DefaultLogger = DefaultLogger

text \<open>\<open>std::endl\<close> inserts a newline character into the string stream.\<close>

definition endl :: string where
  "endl = [CHR 0x0A]"

text \<open>
  \<open>_log\<close>: the string stream receives the tag, the caller's format and the newline;
  its contents are the format string of \<open>fprintf\<close>, whose return value is dropped.
\<close>

definition DefaultLogger_log ::
  "'a conversion \<Rightarrow> DefaultLogger \<Rightarrow> FILE \<Rightarrow> string \<Rightarrow> string \<Rightarrow> 'a list \<Rightarrow> world
     \<Rightarrow> (DefaultLogger \<times> world) outcome" where
  "DefaultLogger_log conv this fs name format args w =
     (let ss = ''[mavrosflight]['' @ name @ '']: '' @ format @ endl
      in bind_outcome (fprintf conv fs ss args w) (\<lambda>(rc, w'). Returns (this, w')))"

text \<open>
  The period of a throttled call is a \<open>float\<close>: its 32 bits. No method computes
  with it.
\<close>

type_synonym float = "32 word"

type_synonym ('d, 'a) log_method =
  "'d \<Rightarrow> string \<Rightarrow> 'a list \<Rightarrow> world \<Rightarrow> ('d \<times> world) outcome"
type_synonym ('d, 'a) throttle_method =
  "'d \<Rightarrow> float \<Rightarrow> string \<Rightarrow> 'a list \<Rightarrow> world \<Rightarrow> ('d \<times> world) outcome"

definition DefaultLogger_debug :: "'a conversion \<Rightarrow> (DefaultLogger, 'a) log_method" where
  "DefaultLogger_debug conv this format args =
     DefaultLogger_log conv this stdout ''DEBUG'' format args"

definition DefaultLogger_debug_throttle ::
  "'a conversion \<Rightarrow> (DefaultLogger, 'a) throttle_method" where
  "DefaultLogger_debug_throttle conv this period format args =
     DefaultLogger_debug conv this format args"

definition DefaultLogger_info :: "'a conversion \<Rightarrow> (DefaultLogger, 'a) log_method" where
  "DefaultLogger_info conv this format args =
     DefaultLogger_log conv this stdout ''INFO'' format args"

definition DefaultLogger_info_throttle ::
  "'a conversion \<Rightarrow> (DefaultLogger, 'a) throttle_method" where
  "DefaultLogger_info_throttle conv this period format args =
     DefaultLogger_info conv this format args"

definition DefaultLogger_warn :: "'a conversion \<Rightarrow> (DefaultLogger, 'a) log_method" where
  "DefaultLogger_warn conv this format args =
     DefaultLogger_log conv this stderr ''WARN'' format args"

definition DefaultLogger_warn_throttle ::
  "'a conversion \<Rightarrow> (DefaultLogger, 'a) throttle_method" where
  "DefaultLogger_warn_throttle conv this period format args =
     DefaultLogger_warn conv this format args"

definition DefaultLogger_error :: "'a conversion \<Rightarrow> (DefaultLogger, 'a) log_method" where
  "DefaultLogger_error conv this format args =
     DefaultLogger_log conv this stderr ''ERROR'' format args"

definition DefaultLogger_error_throttle ::
  "'a conversion \<Rightarrow> (DefaultLogger, 'a) throttle_method" where
  "DefaultLogger_error_throttle conv this period format args =
     DefaultLogger_error conv this format args"

definition DefaultLogger_fatal :: "'a conversion \<Rightarrow> (DefaultLogger, 'a) log_method" where
  "DefaultLogger_fatal conv this format args =
     DefaultLogger_log conv this stderr ''FATAL'' format args"

definition DefaultLogger_fatal_throttle ::
  "'a conversion \<Rightarrow> (DefaultLogger, 'a) throttle_method" where
  "DefaultLogger_fatal_throttle conv this period format args =
     DefaultLogger_fatal conv this format args"

subsection \<open>LoggerInterface\<close>

text \<open>
  \<open>LoggerInterface<Derived>\<close> is generic in the class that implements the ten
  methods; the template parameter is the table of these methods. The cast
  \<open>static_cast<Derived&>(*this)\<close> yields the same object.
\<close>

record ('d, 'a) Derived =
  debug :: "('d, 'a) log_method"
  debug_throttle :: "('d, 'a) throttle_method"
  info :: "('d, 'a) log_method"
  info_throttle :: "('d, 'a) throttle_method"
  warn :: "('d, 'a) log_method"
  warn_throttle :: "('d, 'a) throttle_method"
  error :: "('d, 'a) log_method"
  error_throttle :: "('d, 'a) throttle_method"
  fatal :: "('d, 'a) log_method"
  fatal_throttle :: "('d, 'a) throttle_method"

definition LoggerInterface_debug :: "('d, 'a) Derived \<Rightarrow> ('d, 'a) log_method" where
  "LoggerInterface_debug D this format args = (let derived = this in debug D derived format args)"

definition LoggerInterface_debug_throttle :: "('d, 'a) Derived \<Rightarrow> ('d, 'a) throttle_method" where
  "LoggerInterface_debug_throttle D this period format args =
     (let derived = this in debug_throttle D derived period format args)"

definition LoggerInterface_info :: "('d, 'a) Derived \<Rightarrow> ('d, 'a) log_method" where
  "LoggerInterface_info D this format args = (let derived = this in info D derived format args)"

definition LoggerInterface_info_throttle :: "('d, 'a) Derived \<Rightarrow> ('d, 'a) throttle_method" where
  "LoggerInterface_info_throttle D this period format args =
     (let derived = this in info_throttle D derived period format args)"

definition LoggerInterface_warn :: "('d, 'a) Derived \<Rightarrow> ('d, 'a) log_method" where
  "LoggerInterface_warn D this format args = (let derived = this in warn D derived format args)"

definition LoggerInterface_warn_throttle :: "('d, 'a) Derived \<Rightarrow> ('d, 'a) throttle_method" where
  "LoggerInterface_warn_throttle D this period format args =
     (let derived = this in warn_throttle D derived period format args)"

definition LoggerInterface_error :: "('d, 'a) Derived \<Rightarrow> ('d, 'a) log_method" where
  "LoggerInterface_error D this format args = (let derived = this in error D derived format args)"

definition LoggerInterface_error_throttle :: "('d, 'a) Derived \<Rightarrow> ('d, 'a) throttle_method" where
  "LoggerInterface_error_throttle D this period format args =
     (let derived = this in error_throttle D derived period format args)"

definition LoggerInterface_fatal :: "('d, 'a) Derived \<Rightarrow> ('d, 'a) log_method" where
  "LoggerInterface_fatal D this format args = (let derived = this in fatal D derived format args)"

definition LoggerInterface_fatal_throttle :: "('d, 'a) Derived \<Rightarrow> ('d, 'a) throttle_method" where
  "LoggerInterface_fatal_throttle D this period format args =
     (let derived = this in fatal_throttle D derived period format args)"

text \<open>The instance \<open>LoggerInterface<DefaultLogger>\<close>.\<close>

definition DefaultLogger_methods :: "'a conversion \<Rightarrow> (DefaultLogger, 'a) Derived" where
  "DefaultLogger_methods conv =
     \<lparr>debug = DefaultLogger_debug conv, debug_throttle = DefaultLogger_debug_throttle conv,
      info = DefaultLogger_info conv, info_throttle = DefaultLogger_info_throttle conv,
      warn = DefaultLogger_warn conv, warn_throttle = DefaultLogger_warn_throttle conv,
      error = DefaultLogger_error conv, error_throttle = DefaultLogger_error_throttle conv,
      fatal = DefaultLogger_fatal conv, fatal_throttle = DefaultLogger_fatal_throttle conv\<rparr>"

subsection \<open>Naming a call\<close>

text \<open>
  The ten entry points are five severity levels, each immediate or throttled with a
  period. A caller's choice of method is a level and a variant.
\<close>

datatype level = DEBUG | INFO | WARN | ERROR | FATAL

datatype variant = Immediate | Throttled float

fun DefaultLogger_call ::
  "'a conversion \<Rightarrow> level \<Rightarrow> variant \<Rightarrow> (DefaultLogger, 'a) log_method" where
  "DefaultLogger_call conv DEBUG Immediate = DefaultLogger_debug conv"
| "DefaultLogger_call conv DEBUG (Throttled p) = (\<lambda>this. DefaultLogger_debug_throttle conv this p)"
| "DefaultLogger_call conv INFO Immediate = DefaultLogger_info conv"
| "DefaultLogger_call conv INFO (Throttled p) = (\<lambda>this. DefaultLogger_info_throttle conv this p)"
| "DefaultLogger_call conv WARN Immediate = DefaultLogger_warn conv"
| "DefaultLogger_call conv WARN (Throttled p) = (\<lambda>this. DefaultLogger_warn_throttle conv this p)"
| "DefaultLogger_call conv ERROR Immediate = DefaultLogger_error conv"
| "DefaultLogger_call conv ERROR (Throttled p) = (\<lambda>this. DefaultLogger_error_throttle conv this p)"
| "DefaultLogger_call conv FATAL Immediate = DefaultLogger_fatal conv"
| "DefaultLogger_call conv FATAL (Throttled p) = (\<lambda>this. DefaultLogger_fatal_throttle conv this p)"

fun LoggerInterface_call :: "('d, 'a) Derived \<Rightarrow> level \<Rightarrow> variant \<Rightarrow> ('d, 'a) log_method" where
  "LoggerInterface_call D DEBUG Immediate = LoggerInterface_debug D"
| "LoggerInterface_call D DEBUG (Throttled p) = (\<lambda>this. LoggerInterface_debug_throttle D this p)"
| "LoggerInterface_call D INFO Immediate = LoggerInterface_info D"
| "LoggerInterface_call D INFO (Throttled p) = (\<lambda>this. LoggerInterface_info_throttle D this p)"
| "LoggerInterface_call D WARN Immediate = LoggerInterface_warn D"
| "LoggerInterface_call D WARN (Throttled p) = (\<lambda>this. LoggerInterface_warn_throttle D this p)"
| "LoggerInterface_call D ERROR Immediate = LoggerInterface_error D"
| "LoggerInterface_call D ERROR (Throttled p) = (\<lambda>this. LoggerInterface_error_throttle D this p)"
| "LoggerInterface_call D FATAL Immediate = LoggerInterface_fatal D"
| "LoggerInterface_call D FATAL (Throttled p) = (\<lambda>this. LoggerInterface_fatal_throttle D this p)"

subsection \<open>The documented output\<close>

text \<open>
  The specification's table of levels: the tag text is the upper-case level name;
  \<open>debug\<close> and \<open>info\<close> go to standard output, \<open>warn\<close>, \<open>error\<close> and \<open>fatal\<close> to
  standard error. One message is \<open>[mavrosflight][<LEVEL>]: <message>\<close> and a line
  terminator.
\<close>

fun spec_level_name :: "level \<Rightarrow> string" where
  "spec_level_name DEBUG = ''DEBUG''"
| "spec_level_name INFO = ''INFO''"
| "spec_level_name WARN = ''WARN''"
| "spec_level_name ERROR = ''ERROR''"
| "spec_level_name FATAL = ''FATAL''"

fun spec_stream :: "level \<Rightarrow> FILE" where
  "spec_stream DEBUG = stdout"
| "spec_stream INFO = stdout"
| "spec_stream WARN = stderr"
| "spec_stream ERROR = stderr"
| "spec_stream FATAL = stderr"

definition spec_line :: "level \<Rightarrow> string \<Rightarrow> string" where
  "spec_line L message = ''[mavrosflight]['' @ spec_level_name L @ '']: '' @ message @ [CHR 0x0A]"

fun other_stream :: "FILE \<Rightarrow> FILE" where
  "other_stream stdout = stderr"
| "other_stream stderr = stdout"

text \<open>
  A template seen as the specification describes it: stretches of literal text,
  escaped percent signs and placeholders. A placeholder is the text of one conversion
  specification; the arguments are handed to the placeholders from left to right,
  each taking as many as its specification asks for.
\<close>

datatype piece = Text string | Percent | Placeholder string

fun template_of :: "piece list \<Rightarrow> string" where
  "template_of [] = []"
| "template_of (Text t # ps) = t @ template_of ps"
| "template_of (Percent # ps) = CHR ''%'' # CHR ''%'' # template_of ps"
| "template_of (Placeholder sp # ps) = CHR ''%'' # sp @ template_of ps"

fun substitute :: "'a conversion \<Rightarrow> piece list \<Rightarrow> 'a list \<Rightarrow> string" where
  "substitute conv [] args = []"
| "substitute conv (Text t # ps) args = t @ substitute conv ps args"
| "substitute conv (Percent # ps) args = CHR ''%'' # substitute conv ps args"
| "substitute conv (Placeholder sp # ps) args =
     (case conv sp (take (arity sp) args) of
        None \<Rightarrow> []
      | Some out \<Rightarrow> out @ substitute conv ps (drop (arity sp) args))"

text \<open>
  The arguments fit the template: literal text holds no \<open>%\<close>, every placeholder is
  one complete conversion specification, finds the arguments it takes and is defined
  on them. Arguments beyond those the placeholders take are allowed.
\<close>

fun fits :: "'a conversion \<Rightarrow> piece list \<Rightarrow> 'a list \<Rightarrow> bool" where
  "fits conv [] args = True"
| "fits conv (Text t # ps) args = (CHR ''%'' \<notin> set t \<and> fits conv ps args)"
| "fits conv (Percent # ps) args = fits conv ps args"
| "fits conv (Placeholder sp # ps) args =
     (parse_spec sp = Some sp \<and> arity sp \<le> length args
      \<and> conv sp (take (arity sp) args) \<noteq> None \<and> fits conv ps (drop (arity sp) args))"

text \<open>
  The formatted arguments of a call: the texts written for the conversion
  specifications of the template, in order.
\<close>

function conversion_texts :: "'a conversion \<Rightarrow> string \<Rightarrow> 'a list \<Rightarrow> string list" where
  "conversion_texts conv [] args = []"
| "conversion_texts conv (c # rest) args =
     (if c \<noteq> CHR ''%'' then conversion_texts conv rest args
      else
        (case rest of
           [] \<Rightarrow> []
         | k # rest' \<Rightarrow>
             if k = CHR ''%'' then conversion_texts conv rest' args
             else
               (case parse_spec rest of
                  None \<Rightarrow> []
                | Some spec \<Rightarrow>
                    (case conv spec (take (arity spec) args) of
                       None \<Rightarrow> []
                     | Some out \<Rightarrow>
                         out # conversion_texts conv (drop (length spec) rest)
                                 (drop (arity spec) args)))))"
  by pat_completeness auto
termination
  by (relation "measure (\<lambda>(conv, fmt, args). length fmt)") auto

declare conversion_texts.simps [simp del]

text \<open>
  A placeholder is a conversion specification that stands for an argument: a \<open>%\<close>
  followed by anything but a second \<open>%\<close> (a \<open>%\<close> that ends the template counts as
  one, begun and not finished). The pair \<open>%%\<close> is none: it takes no argument and
  denotes the character \<open>%\<close>; \<open>unescape\<close> reads every such pair as that character.
\<close>

fun has_placeholder :: "string \<Rightarrow> bool" where
  "has_placeholder [] = False"
| "has_placeholder [c] = (c = CHR ''%'')"
| "has_placeholder (c # k # rest) =
     (if c \<noteq> CHR ''%'' then has_placeholder (k # rest)
      else if k = CHR ''%'' then has_placeholder rest
      else True)"

fun unescape :: "string \<Rightarrow> string" where
  "unescape [] = []"
| "unescape [c] = [c]"
| "unescape (c # k # rest) =
     (if c = CHR ''%'' \<and> k = CHR ''%'' then CHR ''%'' # unescape rest
      else c # unescape (k # rest))"

text \<open>A history of calls on one logger, run in order.\<close>

type_synonym 'a call = "level \<times> variant \<times> string \<times> 'a list"

fun run_calls ::
  "'a conversion \<Rightarrow> 'a call list \<Rightarrow> DefaultLogger \<Rightarrow> world \<Rightarrow> (DefaultLogger \<times> world) outcome" where
  "run_calls conv [] this w = Returns (this, w)"
| "run_calls conv ((L, v, format, args) # cs) this w =
     bind_outcome (DefaultLogger_call conv L v this format args w)
       (\<lambda>(this', w'). run_calls conv cs this' w')"

text \<open>The bytes a stream received between two states.\<close>

definition received :: "FILE \<Rightarrow> world \<Rightarrow> world \<Rightarrow> string" where
  "received fs w w' = drop (length (data (w fs))) (data (w' fs))"

subsection \<open>Arguments and conversions of the examples\<close>

text \<open>
  The examples pass arguments of the types \<open>int\<close>, \<open>unsigned int\<close> and
  \<open>const char*\<close> (the characters before the terminating NUL) and use the plain
  conversions \<open>%d\<close>, \<open>%i\<close> (signed decimal), \<open>%u\<close> (decimal), \<open>%x\<close> (hexadecimal)
  and \<open>%s\<close>. \<open>example_conv\<close> is the library restricted to these.
\<close>

datatype arg = Arg_int "32 word" | Arg_unsigned "32 word" | Arg_cstr string

definition digit_char :: "nat \<Rightarrow> char" where
  "digit_char d = ''0123456789abcdef'' ! d"

function show_nat :: "nat \<Rightarrow> string" where
  "show_nat n = (if n < 10 then [digit_char n] else show_nat (n div 10) @ [digit_char (n mod 10)])"
  by pat_completeness auto
termination
  by (relation "measure id") auto

declare show_nat.simps [simp del]

function show_hex :: "nat \<Rightarrow> string" where
  "show_hex n = (if n < 16 then [digit_char n] else show_hex (n div 16) @ [digit_char (n mod 16)])"
  by pat_completeness auto
termination
  by (relation "measure id") auto

declare show_hex.simps [simp del]

definition show_int :: "int \<Rightarrow> string" where
  "show_int i = (if i < 0 then CHR ''-'' # show_nat (nat (- i)) else show_nat (nat i))"

fun convert :: "string \<Rightarrow> arg \<Rightarrow> string option" where
  "convert spec (Arg_int i) =
     (if spec = ''d'' \<or> spec = ''i'' then Some (show_int (sint i)) else None)"
| "convert spec (Arg_unsigned u) =
     (if spec = ''u'' then Some (show_nat (unat u))
      else if spec = ''x'' then Some (show_hex (unat u))
      else None)"
| "convert spec (Arg_cstr s) = (if spec = ''s'' then Some s else None)"

fun example_conv :: "arg conversion" where
  "example_conv spec [a] = convert spec a"
| "example_conv spec args = None"

text \<open>A state in which standard error is in error and takes no bytes.\<close>

definition broken_stderr :: world where
  "broken_stderr = fresh_world(stderr := \<lparr>data = [], failed = True\<rparr>)"

section \<open>Auxiliary facts\<close>

subsection \<open>The conversion specification at the head of a text\<close>

lemma parse_from_append:
  "parse_from seen s = Some spec \<Longrightarrow> parse_from seen (s @ t) = Some spec"
  by (induction s arbitrary: seen) (auto split: if_splits)

lemma parse_from_prefix:
  "parse_from seen s = Some spec \<Longrightarrow>
     \<exists>p. p \<noteq> [] \<and> spec = seen @ p \<and> s = p @ drop (length p) s \<and> valid_spec spec"
proof (induction s arbitrary: seen)
  case Nil
  then show ?case by simp
next
  case (Cons c cs)
  show ?case
  proof (cases "valid_spec (seen @ [c])")
    case True
    with Cons.prems have "spec = seen @ [c]" by simp
    with True show ?thesis by (intro exI [of _ "[c]"]) simp
  next
    case False
    with Cons.prems have "parse_from (seen @ [c]) cs = Some spec" by simp
    from Cons.IH [OF this] obtain p where
      p: "p \<noteq> []" "spec = (seen @ [c]) @ p" "cs = p @ drop (length p) cs" "valid_spec spec"
      by blast
    then have "c # cs = (c # p) @ drop (length (c # p)) (c # cs)" by simp
    with p show ?thesis by (intro exI [of _ "c # p"]) simp
  qed
qed

lemma valid_spec_snoc: "valid_spec (p @ [x]) \<Longrightarrow> is_specifier x"
  by (simp add: valid_spec_def)

lemma parse_from_snoc:
  "\<not> is_specifier x \<Longrightarrow> parse_from seen (s @ [x]) = parse_from seen s"
proof (induction s arbitrary: seen)
  case Nil
  then show ?case using valid_spec_snoc [of seen x] by auto
next
  case (Cons c cs)
  then show ?case by simp
qed

lemma parse_from_self:
  "parse_from seen s = Some (seen @ p) \<Longrightarrow> parse_from seen p = Some (seen @ p)"
proof (induction s arbitrary: seen p)
  case Nil
  then show ?case by simp
next
  case (Cons c cs)
  show ?case
  proof (cases "valid_spec (seen @ [c])")
    case True
    with Cons.prems have "p = [c]" by simp
    with True show ?thesis by simp
  next
    case False
    with Cons.prems have rest: "parse_from (seen @ [c]) cs = Some (seen @ p)" by simp
    from parse_from_prefix [OF rest] obtain q where "seen @ p = (seen @ [c]) @ q" by blast
    then have p: "p = c # q" by simp
    with rest have "parse_from (seen @ [c]) cs = Some ((seen @ [c]) @ q)" by simp
    from Cons.IH [OF this] False p show ?thesis by simp
  qed
qed

lemma parse_spec_append: "parse_spec s = Some spec \<Longrightarrow> parse_spec (s @ t) = Some spec"
  unfolding parse_spec_def by (rule parse_from_append)

lemma parse_spec_prefix:
  assumes "parse_spec s = Some spec"
  shows "s = spec @ drop (length spec) s" and "spec \<noteq> []" and "valid_spec spec"
  using parse_from_prefix [of "[]" s spec] assms unfolding parse_spec_def by auto

lemma parse_spec_endl: "parse_spec (s @ endl) = parse_spec s"
  unfolding parse_spec_def endl_def
  by (rule parse_from_snoc) (simp add: is_specifier_def)

lemma parse_spec_self: "parse_spec s = Some spec \<Longrightarrow> parse_spec spec = Some spec"
  using parse_from_self [of "[]" s spec] unfolding parse_spec_def by simp

lemma skip_percent:
  "skip_length (skip_precision (skip_width (dropWhile is_flag (CHR ''%'' # m)))) \<noteq> []"
  by (cases m) (simp_all add: is_flag_def is_digit_def is_length_def)

lemma valid_spec_head: "valid_spec (k # p) \<Longrightarrow> k \<noteq> CHR ''%''"
proof
  assume v: "valid_spec (k # p)" and k: "k = CHR ''%''"
  show False
  proof (cases p)
    case Nil
    with v k show False by (simp add: valid_spec_def is_specifier_def)
  next
    case (Cons a q)
    then have "butlast (k # p) = CHR ''%'' # butlast p" using k by simp
    with v skip_percent [of "butlast p"] show False by (simp add: valid_spec_def)
  qed
qed

lemma parse_spec_head: "parse_spec (k # rest) = Some spec \<Longrightarrow> k \<noteq> CHR ''%''"
proof -
  assume a: "parse_spec (k # rest) = Some spec"
  from parse_spec_prefix [OF a] obtain p where "spec = k # p" and "valid_spec spec"
    by (cases spec) auto
  then show ?thesis using valid_spec_head by blast
qed

subsection \<open>Formatting, step by step\<close>

lemma vformat_ordinary:
  "c \<noteq> CHR ''%'' \<Longrightarrow> vformat conv (c # cs) args = prepend [c] (vformat conv cs args)"
  by (simp add: vformat.simps)

lemma vformat_percent:
  "vformat conv (CHR ''%'' # CHR ''%'' # rest) args = prepend [CHR ''%''] (vformat conv rest args)"
  by (simp add: vformat.simps)

lemma vformat_lone: "vformat conv [CHR ''%''] args = Inl Incomplete_conversion"
  by (simp add: vformat.simps)

lemma vformat_conversion:
  "k \<noteq> CHR ''%'' \<Longrightarrow> vformat conv (CHR ''%'' # k # rest) args =
     (case parse_spec (k # rest) of
        None \<Rightarrow> Inl Invalid_conversion
      | Some spec \<Rightarrow>
          if length args < arity spec then Inl Missing_argument
          else
            (case conv spec (take (arity spec) args) of
               None \<Rightarrow> Inl Undefined_conversion
             | Some out \<Rightarrow>
                 prepend out
                   (vformat conv (drop (length spec) (k # rest)) (drop (arity spec) args))))"
  by (simp add: vformat.simps(2))

lemma prepend_prepend: "prepend p (prepend q r) = prepend (p @ q) r"
  by (simp add: prepend_def split: sum.splits)

lemma prepend_Nil: "prepend [] r = r"
  by (simp add: prepend_def split: sum.splits)

lemma prepend_Inr: "prepend p r = Inr s \<longleftrightarrow> (\<exists>t. r = Inr t \<and> s = p @ t)"
  by (auto simp: prepend_def split: sum.splits)

lemma vformat_prefix:
  "CHR ''%'' \<notin> set pre \<Longrightarrow> vformat conv (pre @ rest) args = prepend pre (vformat conv rest args)"
proof (induction pre)
  case Nil
  show ?case by (simp add: prepend_Nil)
next
  case (Cons c pre)
  then have "c \<noteq> CHR ''%''" by auto
  with Cons show ?case by (simp add: vformat_ordinary prepend_prepend)
qed

lemma vformat_plain: "CHR ''%'' \<notin> set t \<Longrightarrow> vformat conv t args = Inr t"
  using vformat_prefix [of t conv "[]" args] by (simp add: prepend_def vformat.simps)

lemma vformat_cases [consumes 1, case_names empty ordinary lone percent conversion]:
  assumes "vformat conv fmt args = Inr s"
  obtains "fmt = []" "s = []"
  | c rest t where "fmt = c # rest" "c \<noteq> CHR ''%''" "vformat conv rest args = Inr t" "s = c # t"
  | "fmt = [CHR ''%'']" "False"
  | rest t where "fmt = CHR ''%'' # CHR ''%'' # rest" "vformat conv rest args = Inr t"
      "s = CHR ''%'' # t"
  | k rest spec out t where "fmt = CHR ''%'' # k # rest" "k \<noteq> CHR ''%''"
      "parse_spec (k # rest) = Some spec" "arity spec \<le> length args"
      "conv spec (take (arity spec) args) = Some out"
      "vformat conv (drop (length spec) (k # rest)) (drop (arity spec) args) = Inr t"
      "s = out @ t"
proof (cases fmt)
  case Nil
  with assms that(1) show thesis by (simp add: vformat.simps)
next
  case (Cons c rest)
  show thesis
  proof (cases "c = CHR ''%''")
    case False
    with assms Cons obtain t where "vformat conv rest args = Inr t" "s = c # t"
      by (auto simp: vformat_ordinary prepend_Inr)
    with that(2) Cons False show thesis by blast
  next
    case True
    note c = this
    show thesis
    proof (cases rest)
      case Nil
      with assms Cons c show thesis by (simp add: vformat_lone)
    next
      case (Cons k rest')
      note rest = this
      show thesis
      proof (cases "k = CHR ''%''")
        case True
        with assms \<open>fmt = c # rest\<close> c rest obtain t where
          "vformat conv rest' args = Inr t" "s = CHR ''%'' # t"
          by (auto simp: vformat_percent prepend_Inr)
        with that(4) \<open>fmt = c # rest\<close> c rest True show thesis by blast
      next
        case False
        from assms \<open>fmt = c # rest\<close> c rest
        have v: "vformat conv (CHR ''%'' # k # rest') args = Inr s" by simp
        then obtain spec where spec: "parse_spec (k # rest') = Some spec"
          by (cases "parse_spec (k # rest')") (simp_all add: vformat_conversion [OF False])
        with v have ar: "arity spec \<le> length args"
          by (simp add: vformat_conversion [OF False] split: if_splits)
        with v spec obtain out where out: "conv spec (take (arity spec) args) = Some out"
          by (cases "conv spec (take (arity spec) args)")
             (simp_all add: vformat_conversion [OF False])
        with v spec ar obtain t where
          "vformat conv (drop (length spec) (k # rest')) (drop (arity spec) args) = Inr t"
          "s = out @ t"
          by (auto simp: vformat_conversion [OF False] prepend_Inr)
        with that(5) \<open>fmt = c # rest\<close> c rest False spec ar out show thesis by blast
      qed
    qed
  qed
qed

subsection \<open>The newline after the template\<close>

lemma drop_spec_append:
  assumes "parse_spec s = Some spec"
  shows "drop (length spec) (s @ t) = drop (length spec) s @ t"
proof -
  from parse_spec_prefix(1) [OF assms] have "length spec \<le> length s"
    by (metis length_append le_add1)
  then show ?thesis by simp
qed

lemma drop_spec_shorter:
  assumes "parse_spec s = Some spec"
  shows "length (drop (length spec) s) < length s"
proof -
  from parse_spec_prefix [OF assms] have "spec \<noteq> []" and "length spec \<le> length s"
    by (simp, metis length_append le_add1)
  then show ?thesis by (cases spec) auto
qed

lemma vformat_endl_Inr:
  "vformat conv fmt args = Inr body \<Longrightarrow> vformat conv (fmt @ endl) args = Inr (body @ endl)"
proof (induction "length fmt" arbitrary: fmt args body rule: less_induct)
  case less
  from less.prems show ?case
  proof (cases rule: vformat_cases)
    case empty
    then show ?thesis by (simp add: vformat_plain endl_def)
  next
    case (ordinary c rest t)
    with less.hyps [of rest args t] show ?thesis
      by (simp add: vformat_ordinary prepend_def)
  next
    case lone
    then show ?thesis by simp
  next
    case (percent rest t)
    with less.hyps [of rest args t] show ?thesis
      by (simp add: vformat_percent prepend_def)
  next
    case (conversion k rest spec out t)
    from drop_spec_shorter [OF conversion(3)] conversion(1)
    have "length (drop (length spec) (k # rest)) < length fmt" by simp
    from less.hyps [OF this conversion(6)]
    have "vformat conv (drop (length spec) (k # rest) @ endl) (drop (arity spec) args) = Inr (t @ endl)" .
    moreover have "parse_spec ((k # rest) @ endl) = Some spec"
      by (rule parse_spec_append [OF conversion(3)])
    moreover have "drop (length spec) ((k # rest) @ endl) = drop (length spec) (k # rest) @ endl"
      by (rule drop_spec_append [OF conversion(3)])
    ultimately have "vformat conv (CHR ''%'' # (k # rest) @ endl) args = Inr ((out @ t) @ endl)"
      using conversion(2,4,5)
      by (simp only: append_Cons vformat_conversion [OF conversion(2)])
         (simp add: prepend_def)
    with conversion(1,7) show ?thesis by simp
  qed
qed

lemma vformat_endl_defined:
  "vformat conv (fmt @ endl) args = Inr s \<Longrightarrow> \<exists>body. vformat conv fmt args = Inr body"
proof (induction "length fmt" arbitrary: fmt args s rule: less_induct)
  case less
  from less.prems show ?case
  proof (cases rule: vformat_cases)
    case empty
    then show ?thesis by (simp add: endl_def)
  next
    case (ordinary c rest t)
    show ?thesis
    proof (cases fmt)
      case Nil
      then show ?thesis by (simp add: vformat.simps)
    next
      case (Cons c' fmt')
      with ordinary have "rest = fmt' @ endl" "c' = c" by simp_all
      with ordinary less.hyps [of fmt' args t] Cons obtain body where
        "vformat conv fmt' args = Inr body" by auto
      with Cons \<open>c' = c\<close> ordinary(2) show ?thesis
        by (simp add: vformat_ordinary prepend_def)
    qed
  next
    case lone
    then show ?thesis by simp
  next
    case (percent rest t)
    then obtain fmt' where fmt: "fmt = CHR ''%'' # CHR ''%'' # fmt'" and rest: "rest = fmt' @ endl"
      by (cases fmt; cases "tl fmt") (auto simp: endl_def)
    with percent less.hyps [of fmt' args t] obtain body where
      "vformat conv fmt' args = Inr body" by auto
    with fmt show ?thesis by (simp add: vformat_percent prepend_def)
  next
    case (conversion k rest spec out t)
    have "fmt \<noteq> [CHR ''%'']"
    proof
      assume "fmt = [CHR ''%'']"
      with conversion(1) have "k # rest = [] @ endl" by simp
      with conversion(3) have "parse_spec ([] @ endl) = Some spec" by simp
      then show False by (simp only: parse_spec_endl) (simp add: parse_spec_def)
    qed
    with conversion(1) obtain fmt' where fmt: "fmt = CHR ''%'' # k # fmt'" and rest: "rest = fmt' @ endl"
      by (cases fmt; cases "tl fmt") (auto simp: endl_def)
    from conversion(3) rest have spec: "parse_spec (k # fmt') = Some spec"
      using parse_spec_endl [of "k # fmt'"] by simp
    have "drop (length spec) (k # rest) = drop (length spec) (k # fmt') @ endl"
      using drop_spec_append [OF spec, of endl] rest by simp
    with conversion(6)
    have "vformat conv (drop (length spec) (k # fmt') @ endl) (drop (arity spec) args) = Inr t"
      by simp
    moreover from drop_spec_shorter [OF spec] fmt
    have "length (drop (length spec) (k # fmt')) < length fmt" by simp
    ultimately obtain body where
      "vformat conv (drop (length spec) (k # fmt')) (drop (arity spec) args) = Inr body"
      using less.hyps by blast
    with fmt spec conversion(2,4,5) show ?thesis
      by (simp add: vformat_conversion prepend_def)
  qed
qed

lemma vformat_endl_Inr_elim:
  assumes "vformat conv (fmt @ endl) args = Inr s"
  obtains body where "vformat conv fmt args = Inr body" and "s = body @ endl"
proof -
  from vformat_endl_defined [OF assms] obtain body where body: "vformat conv fmt args = Inr body"
    by blast
  from vformat_endl_Inr [OF body] assms have "s = body @ endl" by simp
  with body that show thesis by blast
qed

subsection \<open>Every entry point is one call of the private method\<close>

lemma tag_plain: "CHR ''%'' \<notin> set (''[mavrosflight]['' @ spec_level_name L @ '']: '')"
  by (cases L) simp_all

lemma call_is_log:
  "DefaultLogger_call conv L v this format args w
     = DefaultLogger_log conv this (spec_stream L) (spec_level_name L) format args w"
  by (cases L; cases v)
     (simp_all add: DefaultLogger_debug_def DefaultLogger_debug_throttle_def
        DefaultLogger_info_def DefaultLogger_info_throttle_def
        DefaultLogger_warn_def DefaultLogger_warn_throttle_def
        DefaultLogger_error_def DefaultLogger_error_throttle_def
        DefaultLogger_fatal_def DefaultLogger_fatal_throttle_def)

lemma log_format:
  assumes "vformat conv format args = Inr body"
  shows "vformat conv (''[mavrosflight]['' @ spec_level_name L @ '']: '' @ format @ endl) args
     = Inr (spec_line L body)"
proof -
  have "vformat conv ((''[mavrosflight]['' @ spec_level_name L @ '']: '') @ (format @ endl)) args
      = prepend (''[mavrosflight]['' @ spec_level_name L @ '']: '') (vformat conv (format @ endl) args)"
    by (rule vformat_prefix [OF tag_plain])
  also have "\<dots> = Inr ((''[mavrosflight]['' @ spec_level_name L @ '']: '') @ body @ endl)"
    by (simp only: vformat_endl_Inr [OF assms] prepend_def sum.case)
  finally show ?thesis by (simp add: spec_line_def endl_def)
qed

lemma log_format_Inr:
  assumes "vformat conv (''[mavrosflight]['' @ spec_level_name L @ '']: '' @ format @ endl) args = Inr s"
  obtains body where "vformat conv format args = Inr body" and "s = spec_line L body"
proof -
  have "vformat conv ((''[mavrosflight]['' @ spec_level_name L @ '']: '') @ (format @ endl)) args
      = prepend (''[mavrosflight]['' @ spec_level_name L @ '']: '') (vformat conv (format @ endl) args)"
    by (rule vformat_prefix [OF tag_plain])
  with assms obtain t where "vformat conv (format @ endl) args = Inr t"
    by (cases "vformat conv (format @ endl) args") (auto simp: prepend_def)
  then obtain body where body: "vformat conv format args = Inr body"
    by (rule vformat_endl_Inr_elim)
  from log_format [OF body, of L] assms have "s = spec_line L body" by simp
  with body that show thesis by blast
qed

lemma log_unfold:
  "DefaultLogger_call conv L v this format args w
     = (case vformat conv (''[mavrosflight]['' @ spec_level_name L @ '']: '' @ format @ endl) args of
          Inl e \<Rightarrow> Stuck e
        | Inr s \<Rightarrow> Returns (this, if failed (w (spec_stream L)) then w else emit (spec_stream L) s w))"
proof -
  define X where "X = ''[mavrosflight]['' @ spec_level_name L @ '']: '' @ format @ endl"
  have "DefaultLogger_call conv L v this format args w
      = bind_outcome (fprintf conv (spec_stream L) X args w) (\<lambda>(rc, w'). Returns (this, w'))"
    by (simp only: call_is_log DefaultLogger_log_def Let_def X_def)
  also have "\<dots> = (case vformat conv X args of
          Inl e \<Rightarrow> Stuck e
        | Inr s \<Rightarrow> Returns (this, if failed (w (spec_stream L)) then w else emit (spec_stream L) s w))"
    by (cases "vformat conv X args") (simp_all add: fprintf_def)
  finally show ?thesis by (simp only: X_def)
qed

lemma log_returns:
  assumes "vformat conv format args = Inr body"
  shows "DefaultLogger_call conv L v this format args w
     = Returns (this,
         if failed (w (spec_stream L)) then w
         else w(spec_stream L := (w (spec_stream L))
                  \<lparr>data := data (w (spec_stream L)) @ spec_line L body\<rparr>))"
  by (simp only: log_unfold log_format [OF assms] sum.case emit_def)

lemma log_Returns_elim:
  assumes "DefaultLogger_call conv L v this format args w = Returns (this', w')"
  obtains body where "vformat conv format args = Inr body"
proof -
  define X where "X = ''[mavrosflight]['' @ spec_level_name L @ '']: '' @ format @ endl"
  from assms have "(case vformat conv X args of
          Inl e \<Rightarrow> Stuck e
        | Inr s \<Rightarrow> Returns (this, if failed (w (spec_stream L)) then w else emit (spec_stream L) s w))
      = Returns (this', w')"
    by (simp only: log_unfold X_def)
  then obtain s where "vformat conv X args = Inr s"
    by (cases "vformat conv X args") simp_all
  then have "vformat conv (''[mavrosflight]['' @ spec_level_name L @ '']: '' @ format @ endl) args = Inr s"
    by (simp only: X_def)
  then obtain body where "vformat conv format args = Inr body"
    by (rule log_format_Inr)
  with that show thesis .
qed

subsection \<open>Streams, forwarding and the state a call leaves\<close>

lemma received_update:
  "received fs' w (w(fs := (w fs)\<lparr>data := data (w fs) @ s\<rparr>)) = (if fs' = fs then s else [])"
  by (simp add: received_def)

lemma received_same: "received fs w w = []"
  by (simp add: received_def)

lemma other_stream_neq: "other_stream fs \<noteq> fs"
  by (cases fs) simp_all

lemma interface_call_eq:
  "LoggerInterface_call (DefaultLogger_methods conv) L v this format args w
     = DefaultLogger_call conv L v this format args w"
  by (cases L; cases v)
     (simp_all add: DefaultLogger_methods_def
        LoggerInterface_debug_def LoggerInterface_debug_throttle_def
        LoggerInterface_info_def LoggerInterface_info_throttle_def
        LoggerInterface_warn_def LoggerInterface_warn_throttle_def
        LoggerInterface_error_def LoggerInterface_error_throttle_def
        LoggerInterface_fatal_def LoggerInterface_fatal_throttle_def)

lemma fprintf_failed:
  assumes "vformat conv fmt args = Inr s" and "failed (w fs)"
  shows "fprintf conv fs fmt args w = Returns (- 1, w)"
  using assms(2) by (simp only: fprintf_def assms(1) sum.case if_True)

lemma call_keeps_state:
  assumes "DefaultLogger_call conv L v this format args w = Returns (this', w')"
  shows "this' = this" and "failed (w' fs) = failed (w fs)"
proof -
  from assms obtain body where body: "vformat conv format args = Inr body"
    by (rule log_Returns_elim)
  from assms show "this' = this"
    by (simp add: log_returns [OF body])
  from assms show "failed (w' fs) = failed (w fs)"
    by (auto simp: log_returns [OF body] split: if_splits)
qed

lemma run_keeps_state:
  "run_calls conv history this w = Returns (this1, w1) \<Longrightarrow>
     this1 = this \<and> (\<forall>fs. failed (w1 fs) = failed (w fs))"
proof (induction history arbitrary: this w)
  case Nil
  then show ?case by simp
next
  case (Cons c history)
  obtain L v format args where c: "c = (L, v, format, args)"
    by (cases c)
  from Cons.prems c obtain this' w' where
    first: "DefaultLogger_call conv L v this format args w = Returns (this', w')"
    and rest: "run_calls conv history this' w' = Returns (this1, w1)"
    by (cases "DefaultLogger_call conv L v this format args w") auto
  from Cons.IH [OF rest] call_keeps_state [OF first] show ?case by simp
qed

lemma call_same_flags:
  assumes "DefaultLogger_call conv L v this format args w = Returns (this2, w2)"
    and "failed (u (spec_stream L)) = failed (w (spec_stream L))"
  shows "\<exists>u2. DefaultLogger_call conv L v this format args u = Returns (this, u2)
           \<and> (\<forall>fs. received fs u u2 = received fs w w2)"
proof -
  from assms(1) obtain body where body: "vformat conv format args = Inr body"
    by (rule log_Returns_elim)
  from assms(1) have w2: "w2 = (if failed (w (spec_stream L)) then w
      else w(spec_stream L := (w (spec_stream L))
                  \<lparr>data := data (w (spec_stream L)) @ spec_line L body\<rparr>))"
    by (simp add: log_returns [OF body])
  show ?thesis
    using assms(2) by (simp add: log_returns [OF body] w2 received_update received_same)
qed

subsection \<open>Texts of the conversions\<close>

lemma texts_ordinary:
  "c \<noteq> CHR ''%'' \<Longrightarrow> conversion_texts conv (c # cs) args = conversion_texts conv cs args"
  by (simp add: conversion_texts.simps)

lemma texts_percent:
  "conversion_texts conv (CHR ''%'' # CHR ''%'' # rest) args = conversion_texts conv rest args"
  by (simp add: conversion_texts.simps)

lemma texts_conversion:
  "k \<noteq> CHR ''%'' \<Longrightarrow> parse_spec (k # rest) = Some spec \<Longrightarrow>
   conv spec (take (arity spec) args) = Some out \<Longrightarrow>
   conversion_texts conv (CHR ''%'' # k # rest) args
     = out # conversion_texts conv (drop (length spec) (k # rest)) (drop (arity spec) args)"
  by (simp add: conversion_texts.simps(2))

lemma vformat_no_newline:
  "vformat conv fmt args = Inr s \<Longrightarrow> CHR 0x0A \<notin> set fmt \<Longrightarrow>
   (\<forall>t \<in> set (conversion_texts conv fmt args). CHR 0x0A \<notin> set t) \<Longrightarrow> CHR 0x0A \<notin> set s"
proof (induction "length fmt" arbitrary: fmt args s rule: less_induct)
  case less
  from less.prems(1) show ?case
  proof (cases rule: vformat_cases)
    case empty
    then show ?thesis by simp
  next
    case (ordinary c rest t)
    with less.prems have "CHR 0x0A \<notin> set rest" "c \<noteq> CHR 0x0A"
      and "\<forall>t \<in> set (conversion_texts conv rest args). CHR 0x0A \<notin> set t"
      by (auto simp: texts_ordinary)
    with less.hyps [of rest args t] ordinary show ?thesis by simp
  next
    case lone
    then show ?thesis by simp
  next
    case (percent rest t)
    with less.prems have "CHR 0x0A \<notin> set rest"
      and "\<forall>t \<in> set (conversion_texts conv rest args). CHR 0x0A \<notin> set t"
      by (auto simp: texts_percent)
    with less.hyps [of rest args t] percent show ?thesis by simp
  next
    case (conversion k rest spec out t)
    from less.prems(3) conversion
    have texts: "CHR 0x0A \<notin> set out"
      "\<forall>t \<in> set (conversion_texts conv (drop (length spec) (k # rest)) (drop (arity spec) args)).
          CHR 0x0A \<notin> set t"
      by (simp_all add: texts_conversion)
    from less.prems(2) conversion(1) have "CHR 0x0A \<notin> set (k # rest)" by simp
    then have "CHR 0x0A \<notin> set (drop (length spec) (k # rest))"
      by (meson in_set_dropD)
    moreover from drop_spec_shorter [OF conversion(3)] conversion(1)
    have "length (drop (length spec) (k # rest)) < length fmt" by simp
    ultimately have "CHR 0x0A \<notin> set t"
      using less.hyps conversion(6) texts(2) by blast
    with texts(1) conversion(7) show ?thesis by simp
  qed
qed

subsection \<open>Templates as pieces\<close>

lemma fits_formats:
  "fits conv ps args \<Longrightarrow> vformat conv (template_of ps) args = Inr (substitute conv ps args)"
proof (induction conv ps args rule: fits.induct)
  case (1 conv args)
  show ?case by (simp add: vformat.simps)
next
  case (2 conv t ps args)
  then have t: "CHR ''%'' \<notin> set t"
    and IH: "vformat conv (template_of ps) args = Inr (substitute conv ps args)"
    by simp_all
  show ?case
    by (simp only: template_of.simps substitute.simps vformat_prefix [OF t] IH prepend_def sum.case)
next
  case (3 conv ps args)
  then show ?case by (simp add: vformat_percent prepend_def)
next
  case (4 conv sp ps args)
  then have sp: "parse_spec sp = Some sp" and ar: "arity sp \<le> length args"
    and "conv sp (take (arity sp) args) \<noteq> None"
    and IH: "vformat conv (template_of ps) (drop (arity sp) args)
               = Inr (substitute conv ps (drop (arity sp) args))"
    by simp_all
  then obtain out where out: "conv sp (take (arity sp) args) = Some out" by auto
  from parse_spec_prefix(2) [OF sp] obtain k p where kp: "sp = k # p" by (cases sp) auto
  with sp have k: "k \<noteq> CHR ''%''" using parse_spec_head by blast
  have parse: "parse_spec (k # p @ template_of ps) = Some sp"
    using parse_spec_append [OF sp, of "template_of ps"] kp by simp
  have "drop (length sp) (k # p @ template_of ps) = template_of ps"
    using kp by simp
  with parse ar out IH have "vformat conv (CHR ''%'' # k # p @ template_of ps) args
      = Inr (out @ substitute conv ps (drop (arity sp) args))"
    by (simp add: vformat_conversion [OF k] prepend_def)
  with kp out show ?case by simp
qed

lemma formats_fit:
  "vformat conv fmt args = Inr body \<Longrightarrow>
     \<exists>ps. template_of ps = fmt \<and> fits conv ps args \<and> substitute conv ps args = body"
proof (induction "length fmt" arbitrary: fmt args body rule: less_induct)
  case less
  from less.prems show ?case
  proof (cases rule: vformat_cases)
    case empty
    then show ?thesis by (intro exI [of _ "[]"]) simp
  next
    case (ordinary c rest t)
    with less.hyps [of rest args t] obtain ps where
      "template_of ps = rest" "fits conv ps args" "substitute conv ps args = t" by auto
    with ordinary show ?thesis by (intro exI [of _ "Text [c] # ps"]) simp
  next
    case lone
    then show ?thesis by simp
  next
    case (percent rest t)
    with less.hyps [of rest args t] obtain ps where
      "template_of ps = rest" "fits conv ps args" "substitute conv ps args = t" by auto
    with percent show ?thesis by (intro exI [of _ "Percent # ps"]) simp
  next
    case (conversion k rest spec out t)
    from drop_spec_shorter [OF conversion(3)] conversion(1)
    have "length (drop (length spec) (k # rest)) < length fmt" by simp
    from less.hyps [OF this conversion(6)] obtain ps where ps:
      "template_of ps = drop (length spec) (k # rest)" "fits conv ps (drop (arity spec) args)"
      "substitute conv ps (drop (arity spec) args) = t" by auto
    have "k # rest = spec @ drop (length spec) (k # rest)"
      by (rule parse_spec_prefix(1) [OF conversion(3)])
    with ps(1) conversion(1) have "template_of (Placeholder spec # ps) = fmt" by simp
    moreover have "fits conv (Placeholder spec # ps) args"
      using parse_spec_self [OF conversion(3)] conversion(4,5) ps(2) by simp
    moreover have "substitute conv (Placeholder spec # ps) args = body"
      using conversion(5,7) ps(3) by simp
    ultimately show ?thesis by blast
  qed
qed

subsection \<open>Templates without placeholders\<close>

lemma vformat_unescape:
  "\<not> has_placeholder fmt \<Longrightarrow> vformat conv fmt args = Inr (unescape fmt)"
proof (induction fmt rule: has_placeholder.induct)
  case 1
  show ?case by (simp add: vformat.simps)
next
  case (2 c)
  then show ?case by (simp add: vformat_plain)
next
  case (3 c k rest)
  show ?case
  proof (cases "c = CHR ''%''")
    case False
    with 3 show ?thesis by (simp add: vformat_ordinary prepend_def)
  next
    case True
    with "3.prems" have k: "k = CHR ''%''" and "\<not> has_placeholder rest"
      by (auto split: if_splits)
    with 3 True show ?thesis by (simp add: vformat_percent prepend_def)
  qed
qed

lemma unescape_plain: "CHR ''%'' \<notin> set fmt \<Longrightarrow> unescape fmt = fmt"
  by (induction fmt rule: unescape.induct) auto

lemma unescape_length: "length (unescape fmt) \<le> length fmt"
  by (induction fmt rule: unescape.induct) auto

lemma unescape_shorter:
  "\<not> has_placeholder fmt \<Longrightarrow> CHR ''%'' \<in> set fmt \<Longrightarrow> length (unescape fmt) < length fmt"
proof (induction fmt rule: has_placeholder.induct)
  case 1
  then show ?case by simp
next
  case (2 c)
  then show ?case by simp
next
  case (3 c k rest)
  show ?case
  proof (cases "c = CHR ''%''")
    case False
    with 3 show ?thesis by auto
  next
    case True
    with "3.prems" have "k = CHR ''%''" by (auto split: if_splits)
    with True unescape_length [of rest] show ?thesis by simp
  qed
qed

lemma unescape_same_iff:
  "\<not> has_placeholder fmt \<Longrightarrow> unescape fmt = fmt \<longleftrightarrow> CHR ''%'' \<notin> set fmt"
  using unescape_plain [of fmt] unescape_shorter [of fmt] by auto

subsection \<open>Evaluating the examples\<close>

lemmas evaluate =
  vformat.simps conversion_texts.simps parse_spec_def valid_spec_def arity_def prepend_def
  is_flag_def is_digit_def is_length_def is_specifier_def
  show_int_def show_nat.simps show_hex.simps digit_char_def
  fprintf_def emit_def endl_def DefaultLogger_log_def fresh_world_def broken_stderr_def
  DefaultLogger_debug_def DefaultLogger_debug_throttle_def
  DefaultLogger_info_def DefaultLogger_info_throttle_def
  DefaultLogger_warn_def DefaultLogger_warn_throttle_def
  DefaultLogger_error_def DefaultLogger_error_throttle_def
  DefaultLogger_fatal_def DefaultLogger_fatal_throttle_def

lemma update_data_eq:
  "w(fs := (w fs)\<lparr>data := data (w fs) @ s\<rparr>) = w(fs := (w fs)\<lparr>data := data (w fs) @ t\<rparr>)
     \<longleftrightarrow> s = t"
proof
  assume "w(fs := (w fs)\<lparr>data := data (w fs) @ s\<rparr>) = w(fs := (w fs)\<lparr>data := data (w fs) @ t\<rparr>)"
  then have "(w fs)\<lparr>data := data (w fs) @ s\<rparr> = (w fs)\<lparr>data := data (w fs) @ t\<rparr>"
    by (rule fun_upd_eqD)
  then have "data ((w fs)\<lparr>data := data (w fs) @ s\<rparr>) = data ((w fs)\<lparr>data := data (w fs) @ t\<rparr>)"
    by (rule arg_cong)
  then show "s = t" by simp
next
  assume "s = t"
  then show "w(fs := (w fs)\<lparr>data := data (w fs) @ s\<rparr>) = w(fs := (w fs)\<lparr>data := data (w fs) @ t\<rparr>)"
    by simp
qed

section \<open>Properties of the logger\<close>

text \<open>
  C1. For every severity level and every format template and argument list for which
  formatting the template yields a message, the level's method of \<open>DefaultLogger\<close>,
  on a stream that takes writes, returns with that stream holding what it held
  before, followed by \<open>[mavrosflight][<LEVEL>]: <message>\<close> and one line feed, the
  level name in upper case; nothing else has changed. The message is the template
  with the arguments substituted: the template is a sequence of pieces that the
  arguments fit, and the message is their substitution. This holds whatever the
  library writes for a conversion.
\<close>

theorem message_format:
  assumes "vformat conv format args = Inr message" and "\<not> failed (w (spec_stream L))"
  shows "DefaultLogger_call conv L Immediate this format args w
       = Returns (this,
           w(spec_stream L := (w (spec_stream L))
               \<lparr>data := data (w (spec_stream L))
                  @ ''[mavrosflight]['' @ spec_level_name L @ '']: '' @ message @ [CHR 0x0A]\<rparr>))
     \<and> (\<exists>ps. template_of ps = format \<and> fits conv ps args \<and> substitute conv ps args = message)"
  using assms(2) formats_fit [OF assms(1)]
  by (simp add: log_returns [OF assms(1)] spec_line_def)

text \<open>The specification's example \<open>level("x=%d", 5)\<close>, on standard error and on standard output.\<close>

theorem message_format_witness:
  "vformat example_conv ''x=%d'' [Arg_int 5] = Inr ''x=5''
   \<and> \<not> failed (fresh_world (spec_stream ERROR))
   \<and> DefaultLogger_error example_conv DefaultLogger ''x=%d'' [Arg_int 5] fresh_world
       = Returns (DefaultLogger,
           fresh_world(stderr := \<lparr>data = ''[mavrosflight][ERROR]: x=5'' @ [CHR 0x0A], failed = False\<rparr>))
   \<and> \<not> failed (fresh_world (spec_stream DEBUG))
   \<and> DefaultLogger_debug example_conv DefaultLogger ''x=%d'' [Arg_int 5] fresh_world
       = Returns (DefaultLogger,
           fresh_world(stdout := \<lparr>data = ''[mavrosflight][DEBUG]: x=5'' @ [CHR 0x0A], failed = False\<rparr>))
   \<and> template_of [Text ''x='', Placeholder ''d''] = ''x=%d''
   \<and> fits example_conv [Text ''x='', Placeholder ''d''] [Arg_int 5]
   \<and> substitute example_conv [Text ''x='', Placeholder ''d''] [Arg_int 5] = ''x=5''"
proof -
  have f: "vformat example_conv ''x=%d'' [Arg_int 5] = Inr ''x=5''"
    by (simp add: evaluate)
  have s: "\<not> failed (fresh_world (spec_stream ERROR))"
    and t: "\<not> failed (fresh_world (spec_stream DEBUG))"
    by (simp_all add: fresh_world_def)
  have p: "template_of [Text ''x='', Placeholder ''d''] = ''x=%d''"
    "fits example_conv [Text ''x='', Placeholder ''d''] [Arg_int 5]"
    "substitute example_conv [Text ''x='', Placeholder ''d''] [Arg_int 5] = ''x=5''"
    by (simp_all add: evaluate)
  from message_format [where w = fresh_world and L = ERROR and this = DefaultLogger, OF f s]
    message_format [where w = fresh_world and L = DEBUG and this = DefaultLogger, OF f t] f s t p
  show ?thesis by (simp add: fresh_world_def)
qed

text \<open>
  C2. The destination of a call into \<open>DefaultLogger\<close>, immediate or throttled, is
  fixed by the level alone: standard output for debug and info, standard error for
  warn, error and fatal. A call that returns leaves the other stream as it was, and
  on a destination that takes writes it adds one tagged line.
\<close>

theorem stream_by_level:
  assumes "DefaultLogger_call conv L v this format args w = Returns (this', w')"
  shows "spec_stream L = (if L = DEBUG \<or> L = INFO then stdout else stderr)
     \<and> w' (other_stream (spec_stream L)) = w (other_stream (spec_stream L))
     \<and> (\<not> failed (w (spec_stream L)) \<longrightarrow>
          (\<exists>message. received (spec_stream L) w w' = spec_line L message))"
proof -
  from assms obtain body where body: "vformat conv format args = Inr body"
    by (rule log_Returns_elim)
  from assms have w': "w' = (if failed (w (spec_stream L)) then w
      else w(spec_stream L := (w (spec_stream L))
                  \<lparr>data := data (w (spec_stream L)) @ spec_line L body\<rparr>))"
    by (simp add: log_returns [OF body])
  have "spec_stream L = (if L = DEBUG \<or> L = INFO then stdout else stderr)"
    by (cases L) simp_all
  moreover have "w' (other_stream (spec_stream L)) = w (other_stream (spec_stream L))"
    by (simp add: w' other_stream_neq)
  moreover have "\<not> failed (w (spec_stream L)) \<longrightarrow> received (spec_stream L) w w' = spec_line L body"
    by (simp add: w' received_update)
  ultimately show ?thesis by blast
qed

text \<open>A throttled warning on fresh streams.\<close>

theorem stream_by_level_witness:
  "DefaultLogger_call example_conv WARN (Throttled 0x41200000) DefaultLogger ''x=%d'' [Arg_int 5]
       fresh_world
     = Returns (DefaultLogger, emit stderr (''[mavrosflight][WARN]: x=5'' @ endl) fresh_world)
   \<and> spec_stream WARN = stderr
   \<and> emit stderr (''[mavrosflight][WARN]: x=5'' @ endl) fresh_world (other_stream (spec_stream WARN))
       = fresh_world (other_stream (spec_stream WARN))
   \<and> \<not> failed (fresh_world (spec_stream WARN))
   \<and> (\<exists>message. received (spec_stream WARN) fresh_world
          (emit stderr (''[mavrosflight][WARN]: x=5'' @ endl) fresh_world) = spec_line WARN message)"
proof -
  have c: "DefaultLogger_call example_conv WARN (Throttled 0x41200000) DefaultLogger ''x=%d''
       [Arg_int 5] fresh_world
     = Returns (DefaultLogger, emit stderr (''[mavrosflight][WARN]: x=5'' @ endl) fresh_world)"
    by (simp add: evaluate)
  have s: "\<not> failed (fresh_world (spec_stream WARN))"
    by (simp add: fresh_world_def)
  from stream_by_level [OF c] c s show ?thesis by simp
qed

text \<open>
  C3. For every level, period, template and argument list, the throttled method has
  the outcome of the immediate one: the period plays no part. After two throttled
  calls in succession with the same arguments the stream holds what it held before,
  followed by the tagged message and its line feed twice.
\<close>

theorem throttle_discards_period:
  "DefaultLogger_call conv L (Throttled p) this format args w
     = DefaultLogger_call conv L Immediate this format args w
   \<and> (\<forall>message. vformat conv format args = Inr message \<longrightarrow> \<not> failed (w (spec_stream L)) \<longrightarrow>
        bind_outcome (DefaultLogger_call conv L (Throttled p) this format args w)
          (\<lambda>(this', w'). DefaultLogger_call conv L (Throttled p) this' format args w')
        = Returns (this,
            w(spec_stream L := (w (spec_stream L))
                \<lparr>data := data (w (spec_stream L))
                   @ (''[mavrosflight]['' @ spec_level_name L @ '']: '' @ message @ [CHR 0x0A])
                   @ (''[mavrosflight]['' @ spec_level_name L @ '']: '' @ message @ [CHR 0x0A])\<rparr>)))"
proof -
  have "DefaultLogger_call conv L (Throttled p) this format args w
      = DefaultLogger_call conv L Immediate this format args w"
    by (simp only: call_is_log)
  moreover have "bind_outcome (DefaultLogger_call conv L (Throttled p) this format args w)
          (\<lambda>(this', w'). DefaultLogger_call conv L (Throttled p) this' format args w')
        = Returns (this,
            w(spec_stream L := (w (spec_stream L))
                \<lparr>data := data (w (spec_stream L))
                   @ (''[mavrosflight]['' @ spec_level_name L @ '']: '' @ message @ [CHR 0x0A])
                   @ (''[mavrosflight]['' @ spec_level_name L @ '']: '' @ message @ [CHR 0x0A])\<rparr>))"
    if m: "vformat conv format args = Inr message" and ok: "\<not> failed (w (spec_stream L))" for message
    using ok by (simp add: log_returns [OF m] spec_line_def)
  ultimately show ?thesis by blast
qed

text \<open>Two throttled warnings with a period of ten seconds.\<close>

theorem throttle_discards_period_witness:
  "DefaultLogger_call example_conv WARN (Throttled 0x41200000) DefaultLogger ''x=%d'' [Arg_int 5]
       fresh_world
     = DefaultLogger_call example_conv WARN Immediate DefaultLogger ''x=%d'' [Arg_int 5] fresh_world
   \<and> vformat example_conv ''x=%d'' [Arg_int 5] = Inr ''x=5''
   \<and> \<not> failed (fresh_world (spec_stream WARN))
   \<and> bind_outcome
        (DefaultLogger_call example_conv WARN (Throttled 0x41200000) DefaultLogger ''x=%d''
           [Arg_int 5] fresh_world)
        (\<lambda>(this', w'). DefaultLogger_call example_conv WARN (Throttled 0x41200000) this' ''x=%d''
           [Arg_int 5] w')
      = Returns (DefaultLogger,
          fresh_world(stderr :=
            \<lparr>data = ''[mavrosflight][WARN]: x=5'' @ [CHR 0x0A]
                     @ ''[mavrosflight][WARN]: x=5'' @ [CHR 0x0A],
             failed = False\<rparr>))"
proof -
  have f: "vformat example_conv ''x=%d'' [Arg_int 5] = Inr ''x=5''"
    by (simp add: evaluate)
  have s: "\<not> failed (fresh_world (spec_stream WARN))"
    by (simp add: fresh_world_def)
  have u: "fresh_world(spec_stream WARN := (fresh_world (spec_stream WARN))
                \<lparr>data := data (fresh_world (spec_stream WARN))
                   @ (''[mavrosflight]['' @ spec_level_name WARN @ '']: '' @ ''x=5'' @ [CHR 0x0A])
                   @ (''[mavrosflight]['' @ spec_level_name WARN @ '']: '' @ ''x=5'' @ [CHR 0x0A])\<rparr>)
      = fresh_world(stderr :=
            \<lparr>data = ''[mavrosflight][WARN]: x=5'' @ [CHR 0x0A]
                     @ ''[mavrosflight][WARN]: x=5'' @ [CHR 0x0A],
             failed = False\<rparr>)"
    by (simp add: fresh_world_def)
  from throttle_discards_period
    [of example_conv WARN "0x41200000" DefaultLogger "''x=%d''" "[Arg_int 5]" fresh_world] f s
  have "DefaultLogger_call example_conv WARN (Throttled 0x41200000) DefaultLogger ''x=%d'' [Arg_int 5]
       fresh_world
     = DefaultLogger_call example_conv WARN Immediate DefaultLogger ''x=%d'' [Arg_int 5] fresh_world
   \<and> bind_outcome
        (DefaultLogger_call example_conv WARN (Throttled 0x41200000) DefaultLogger ''x=%d''
           [Arg_int 5] fresh_world)
        (\<lambda>(this', w'). DefaultLogger_call example_conv WARN (Throttled 0x41200000) this' ''x=%d''
           [Arg_int 5] w')
      = Returns (DefaultLogger,
          fresh_world(spec_stream WARN := (fresh_world (spec_stream WARN))
                \<lparr>data := data (fresh_world (spec_stream WARN))
                   @ (''[mavrosflight]['' @ spec_level_name WARN @ '']: '' @ ''x=5'' @ [CHR 0x0A])
                   @ (''[mavrosflight]['' @ spec_level_name WARN @ '']: '' @ ''x=5'' @ [CHR 0x0A])\<rparr>))"
    by blast
  then show ?thesis using f s unfolding u by blast
qed

text \<open>
  C4. A call through \<open>LoggerInterface<DefaultLogger>\<close>, at any level, immediate or
  throttled, on any input and in any state, has the outcome of the same call made on
  \<open>DefaultLogger\<close> directly: the same object, the same bytes on the same stream.
\<close>

theorem interface_forwards_to_DefaultLogger:
  "LoggerInterface_call (DefaultLogger_methods conv) L v this format args w
     = DefaultLogger_call conv L v this format args w"
  by (cases L; cases v)
     (simp_all add: DefaultLogger_methods_def
        LoggerInterface_debug_def LoggerInterface_debug_throttle_def
        LoggerInterface_info_def LoggerInterface_info_throttle_def
        LoggerInterface_warn_def LoggerInterface_warn_throttle_def
        LoggerInterface_error_def LoggerInterface_error_throttle_def
        LoggerInterface_fatal_def LoggerInterface_fatal_throttle_def)

text \<open>
  C5. A log call hands no error to its caller, for any level, template, argument
  list and state, through the interface or directly. Whatever \<open>fprintf\<close> returns,
  a negative value included, the call drops it and returns, with the logger as it
  was; a call has no result only where \<open>fprintf\<close> itself has none. So every call whose
  template and arguments the library can format returns; when the destination
  stream is in error, \<open>fprintf\<close> reports \<open>-1\<close> and the call returns with the state
  unchanged.
\<close>

theorem no_error_signalled:
  "LoggerInterface_call (DefaultLogger_methods conv) L v this format args w
     = DefaultLogger_call conv L v this format args w
   \<and> (\<forall>rc w'. fprintf conv (spec_stream L)
                  (''[mavrosflight]['' @ spec_level_name L @ '']: '' @ format @ endl) args w
                = Returns (rc, w')
        \<longrightarrow> DefaultLogger_call conv L v this format args w = Returns (this, w'))
   \<and> (\<forall>e. DefaultLogger_call conv L v this format args w = Stuck e
        \<longrightarrow> fprintf conv (spec_stream L)
              (''[mavrosflight]['' @ spec_level_name L @ '']: '' @ format @ endl) args w
            = Stuck e)
   \<and> (\<forall>message. vformat conv format args = Inr message \<longrightarrow>
        DefaultLogger_call conv L v this format args w
          = Returns (this,
              if failed (w (spec_stream L)) then w
              else w(spec_stream L := (w (spec_stream L))
                       \<lparr>data := data (w (spec_stream L))
                          @ ''[mavrosflight]['' @ spec_level_name L @ '']: '' @ message
                          @ [CHR 0x0A]\<rparr>))
        \<and> (failed (w (spec_stream L)) \<longrightarrow>
             fprintf conv (spec_stream L)
               (''[mavrosflight]['' @ spec_level_name L @ '']: '' @ format @ endl) args w
             = Returns (- 1, w)))"
proof -
  define X where "X = ''[mavrosflight]['' @ spec_level_name L @ '']: '' @ format @ endl"
  have call: "DefaultLogger_call conv L v this format args w
      = bind_outcome (fprintf conv (spec_stream L) X args w) (\<lambda>(rc, w'). Returns (this, w'))"
    by (simp only: call_is_log DefaultLogger_log_def Let_def X_def)
  have a: "\<forall>rc w'. fprintf conv (spec_stream L) X args w = Returns (rc, w')
        \<longrightarrow> DefaultLogger_call conv L v this format args w = Returns (this, w')"
    by (simp add: call)
  have b: "\<forall>e. DefaultLogger_call conv L v this format args w = Stuck e
        \<longrightarrow> fprintf conv (spec_stream L) X args w = Stuck e"
    by (cases "fprintf conv (spec_stream L) X args w") (auto simp: call)
  have c: "DefaultLogger_call conv L v this format args w
          = Returns (this,
              if failed (w (spec_stream L)) then w
              else w(spec_stream L := (w (spec_stream L))
                       \<lparr>data := data (w (spec_stream L))
                          @ ''[mavrosflight]['' @ spec_level_name L @ '']: '' @ message
                          @ [CHR 0x0A]\<rparr>))
        \<and> (failed (w (spec_stream L)) \<longrightarrow> fprintf conv (spec_stream L) X args w = Returns (- 1, w))"
    if m: "vformat conv format args = Inr message" for message
  proof -
    have "vformat conv X args = Inr (spec_line L message)"
      unfolding X_def by (rule log_format [OF m])
    then have "failed (w (spec_stream L)) \<longrightarrow> fprintf conv (spec_stream L) X args w = Returns (- 1, w)"
      by (simp add: fprintf_failed)
    then show ?thesis by (simp add: log_returns [OF m] spec_line_def)
  qed
  from a b c interface_call_eq [of conv L v this format args w] show ?thesis
    unfolding X_def by blast
qed

text \<open>\<open>error("%x", 255u)\<close> while standard error takes no bytes, and \<open>info("%x", 255u)\<close> through the interface.\<close>

theorem no_error_signalled_witness:
  "vformat example_conv ''%x'' [Arg_unsigned 255] = Inr ''ff''
   \<and> failed (broken_stderr (spec_stream ERROR))
   \<and> fprintf example_conv stderr (''[mavrosflight][ERROR]: %x'' @ endl) [Arg_unsigned 255]
        broken_stderr
       = Returns (- 1, broken_stderr)
   \<and> DefaultLogger_call example_conv ERROR Immediate DefaultLogger ''%x'' [Arg_unsigned 255]
        broken_stderr
       = Returns (DefaultLogger, broken_stderr)
   \<and> LoggerInterface_call (DefaultLogger_methods example_conv) ERROR Immediate DefaultLogger
        ''%x'' [Arg_unsigned 255] broken_stderr
       = Returns (DefaultLogger, broken_stderr)
   \<and> \<not> failed (fresh_world (spec_stream INFO))
   \<and> LoggerInterface_call (DefaultLogger_methods example_conv) INFO Immediate DefaultLogger
        ''%x'' [Arg_unsigned 255] fresh_world
       = Returns (DefaultLogger,
           fresh_world(stdout := \<lparr>data = ''[mavrosflight][INFO]: ff'' @ [CHR 0x0A], failed = False\<rparr>))"
proof -
  have f: "vformat example_conv ''%x'' [Arg_unsigned 255] = Inr ''ff''"
    by (simp add: evaluate)
  have s: "failed (broken_stderr (spec_stream ERROR))"
    by (simp add: broken_stderr_def)
  have t: "\<not> failed (fresh_world (spec_stream INFO))"
    by (simp add: fresh_world_def)
  have p: "fprintf example_conv stderr (''[mavrosflight][ERROR]: %x'' @ endl) [Arg_unsigned 255]
        broken_stderr = Returns (- 1, broken_stderr)"
    by (simp add: evaluate)
  from no_error_signalled
    [of example_conv ERROR Immediate DefaultLogger "''%x''" "[Arg_unsigned 255]" broken_stderr] f s
  have e: "DefaultLogger_call example_conv ERROR Immediate DefaultLogger ''%x'' [Arg_unsigned 255]
        broken_stderr = Returns (DefaultLogger, broken_stderr)"
    and e': "LoggerInterface_call (DefaultLogger_methods example_conv) ERROR Immediate DefaultLogger
        ''%x'' [Arg_unsigned 255] broken_stderr
       = DefaultLogger_call example_conv ERROR Immediate DefaultLogger ''%x'' [Arg_unsigned 255]
        broken_stderr"
    by simp_all
  from no_error_signalled
    [of example_conv INFO Immediate DefaultLogger "''%x''" "[Arg_unsigned 255]" fresh_world] f t
  have i: "LoggerInterface_call (DefaultLogger_methods example_conv) INFO Immediate DefaultLogger
        ''%x'' [Arg_unsigned 255] fresh_world
       = Returns (DefaultLogger,
           fresh_world(stdout := \<lparr>data = ''[mavrosflight][INFO]: ff'' @ [CHR 0x0A], failed = False\<rparr>))"
    by (simp add: fresh_world_def)
  from e e' have e2: "LoggerInterface_call (DefaultLogger_methods example_conv) ERROR Immediate
        DefaultLogger ''%x'' [Arg_unsigned 255] broken_stderr
       = Returns (DefaultLogger, broken_stderr)"
    by simp
  from f s p e e2 t i show ?thesis by (intro conjI)
qed

text \<open>
  C6. When neither the template nor the text written for any of its conversions
  holds a line break, the bytes a call adds to its stream end in one line break and
  hold no other.
\<close>

theorem one_line_terminator:
  assumes "CHR 0x0A \<notin> set format"
    and "\<forall>t \<in> set (conversion_texts conv format args). CHR 0x0A \<notin> set t"
    and "\<not> failed (w (spec_stream L))"
    and "DefaultLogger_call conv L v this format args w = Returns (this', w')"
  shows "\<exists>line. w' = emit (spec_stream L) (line @ [CHR 0x0A]) w \<and> CHR 0x0A \<notin> set line
           \<and> received (spec_stream L) w w' = line @ [CHR 0x0A]"
proof -
  from assms(4) obtain body where body: "vformat conv format args = Inr body"
    by (rule log_Returns_elim)
  let ?line = "''[mavrosflight]['' @ spec_level_name L @ '']: '' @ body"
  from assms(3,4) have w': "w' = w(spec_stream L := (w (spec_stream L))
                  \<lparr>data := data (w (spec_stream L)) @ ?line @ [CHR 0x0A]\<rparr>)"
    by (simp add: log_returns [OF body] spec_line_def)
  have "CHR 0x0A \<notin> set body"
    by (rule vformat_no_newline [OF body assms(1,2)])
  moreover have "CHR 0x0A \<notin> set (spec_level_name L)"
    by (cases L) simp_all
  ultimately have "CHR 0x0A \<notin> set ?line" by simp
  moreover have "w' = emit (spec_stream L) (?line @ [CHR 0x0A]) w"
    by (simp only: w' emit_def)
  moreover have "received (spec_stream L) w w' = ?line @ [CHR 0x0A]"
    by (simp add: w' received_update)
  ultimately show ?thesis by blast
qed

text \<open>A debug message with two conversions.\<close>

theorem one_line_terminator_witness:
  "CHR 0x0A \<notin> set ''%s=%d''
   \<and> conversion_texts example_conv ''%s=%d'' [Arg_cstr ''alt'', Arg_int 120] = [''alt'', ''120'']
   \<and> CHR 0x0A \<notin> set ''alt'' \<and> CHR 0x0A \<notin> set ''120''
   \<and> \<not> failed (fresh_world (spec_stream DEBUG))
   \<and> DefaultLogger_call example_conv DEBUG Immediate DefaultLogger ''%s=%d''
        [Arg_cstr ''alt'', Arg_int 120] fresh_world
       = Returns (DefaultLogger,
           fresh_world(stdout := \<lparr>data = ''[mavrosflight][DEBUG]: alt=120'' @ [CHR 0x0A], failed = False\<rparr>))
   \<and> (\<exists>line. fresh_world(stdout := \<lparr>data = ''[mavrosflight][DEBUG]: alt=120'' @ [CHR 0x0A], failed = False\<rparr>)
          = emit (spec_stream DEBUG) (line @ [CHR 0x0A]) fresh_world \<and> CHR 0x0A \<notin> set line
        \<and> received (spec_stream DEBUG) fresh_world
            (fresh_world(stdout := \<lparr>data = ''[mavrosflight][DEBUG]: alt=120'' @ [CHR 0x0A], failed = False\<rparr>))
           = line @ [CHR 0x0A])"
proof -
  have a: "CHR 0x0A \<notin> set ''%s=%d''" by simp
  have t: "conversion_texts example_conv ''%s=%d'' [Arg_cstr ''alt'', Arg_int 120] = [''alt'', ''120'']"
    by (simp add: evaluate)
  have n: "CHR 0x0A \<notin> set ''alt''" "CHR 0x0A \<notin> set ''120''" by simp_all
  from t n have b: "\<forall>t \<in> set (conversion_texts example_conv ''%s=%d''
      [Arg_cstr ''alt'', Arg_int 120]). CHR 0x0A \<notin> set t"
    by simp
  have c: "\<not> failed (fresh_world (spec_stream DEBUG))" by (simp add: fresh_world_def)
  have d: "DefaultLogger_call example_conv DEBUG Immediate DefaultLogger ''%s=%d''
        [Arg_cstr ''alt'', Arg_int 120] fresh_world
       = Returns (DefaultLogger,
           fresh_world(stdout := \<lparr>data = ''[mavrosflight][DEBUG]: alt=120'' @ [CHR 0x0A], failed = False\<rparr>))"
    by (simp add: evaluate)
  from one_line_terminator [OF a b c d] a t n c d show ?thesis by blast
qed

text \<open>
  C7. When the template is a sequence of literal text, \<open>%%\<close> and placeholders, and
  the arguments fit the placeholders from left to right, the message body is the
  template with the k-th placeholder replaced by what the library writes for it on
  the k-th argument (on the next arguments, when an asterisk takes some), and each
  \<open>%%\<close> by \<open>%\<close>. By \<open>formats_fit\<close> every template the library can format is such a
  sequence. \<open>info("%s=%d", "alt", 120)\<close> has the body \<open>alt=120\<close>.
\<close>

theorem positional_substitution:
  assumes "fits conv ps args" and "\<not> failed (w (spec_stream L))"
  shows "DefaultLogger_call conv L v this (template_of ps) args w
     = Returns (this,
         w(spec_stream L := (w (spec_stream L))
             \<lparr>data := data (w (spec_stream L))
                @ ''[mavrosflight]['' @ spec_level_name L @ '']: '' @ substitute conv ps args
                @ [CHR 0x0A]\<rparr>))"
  using assms(2) by (simp add: log_returns [OF fits_formats [OF assms(1)]] spec_line_def)

text \<open>The specification's example, and a template with \<open>%%\<close> between two placeholders.\<close>

theorem positional_substitution_witness:
  "fits example_conv [Placeholder ''s'', Text ''='', Placeholder ''d'']
       [Arg_cstr ''alt'', Arg_int 120]
   \<and> \<not> failed (fresh_world (spec_stream INFO))
   \<and> template_of [Placeholder ''s'', Text ''='', Placeholder ''d''] = ''%s=%d''
   \<and> DefaultLogger_info example_conv DefaultLogger ''%s=%d'' [Arg_cstr ''alt'', Arg_int 120]
        fresh_world
       = Returns (DefaultLogger,
           fresh_world(stdout := \<lparr>data = ''[mavrosflight][INFO]: alt=120'' @ [CHR 0x0A], failed = False\<rparr>))
   \<and> fits example_conv [Placeholder ''d'', Percent, Text '' of '', Placeholder ''s'']
       [Arg_int 120, Arg_cstr ''alt'']
   \<and> template_of [Placeholder ''d'', Percent, Text '' of '', Placeholder ''s''] = ''%d%% of %s''
   \<and> DefaultLogger_info example_conv DefaultLogger ''%d%% of %s'' [Arg_int 120, Arg_cstr ''alt'']
        fresh_world
       = Returns (DefaultLogger,
           fresh_world(stdout := \<lparr>data = ''[mavrosflight][INFO]: 120% of alt'' @ [CHR 0x0A], failed = False\<rparr>))"
proof -
  have m: "fits example_conv [Placeholder ''s'', Text ''='', Placeholder ''d'']
       [Arg_cstr ''alt'', Arg_int 120]"
    and n: "fits example_conv [Placeholder ''d'', Percent, Text '' of '', Placeholder ''s'']
       [Arg_int 120, Arg_cstr ''alt'']"
    by (simp_all add: evaluate)
  have s: "\<not> failed (fresh_world (spec_stream INFO))"
    by (simp add: fresh_world_def)
  from positional_substitution
         [where L = INFO and v = Immediate and this = DefaultLogger and w = fresh_world, OF m s]
       positional_substitution
         [where L = INFO and v = Immediate and this = DefaultLogger and w = fresh_world, OF n s]
       m n s
  show ?thesis
    by (simp add: fresh_world_def arity_def show_int_def show_nat.simps digit_char_def)
qed

text \<open>
  C8, as stated, fails: the template \<open>100%%\<close> has no placeholder, and with no
  arguments \<open>info\<close> emits the body \<open>100%\<close>, not the template verbatim.
\<close>

theorem escaped_percent_counterexample:
  "\<not> has_placeholder ''100%%''
   \<and> DefaultLogger_call example_conv INFO Immediate DefaultLogger ''100%%'' [] fresh_world
       = Returns (DefaultLogger,
           fresh_world(stdout := \<lparr>data = ''[mavrosflight][INFO]: 100%'' @ [CHR 0x0A], failed = False\<rparr>))
   \<and> DefaultLogger_call example_conv INFO Immediate DefaultLogger ''100%%'' [] fresh_world
       \<noteq> Returns (DefaultLogger,
           fresh_world(stdout := \<lparr>data = ''[mavrosflight][INFO]: 100%%'' @ [CHR 0x0A], failed = False\<rparr>))"
proof -
  have a: "\<not> has_placeholder ''100%%''" by simp
  have b: "DefaultLogger_call example_conv INFO Immediate DefaultLogger ''100%%'' [] fresh_world
       = Returns (DefaultLogger,
           fresh_world(stdout := \<lparr>data = ''[mavrosflight][INFO]: 100%'' @ [CHR 0x0A], failed = False\<rparr>))"
    by (simp add: evaluate)
  have "data ((fresh_world(stdout := \<lparr>data = ''[mavrosflight][INFO]: 100%'' @ [CHR 0x0A], failed = False\<rparr>)) stdout)
      \<noteq> data ((fresh_world(stdout := \<lparr>data = ''[mavrosflight][INFO]: 100%%'' @ [CHR 0x0A], failed = False\<rparr>)) stdout)"
    by simp
  then have "fresh_world(stdout := \<lparr>data = ''[mavrosflight][INFO]: 100%'' @ [CHR 0x0A], failed = False\<rparr>)
      \<noteq> fresh_world(stdout := \<lparr>data = ''[mavrosflight][INFO]: 100%%'' @ [CHR 0x0A], failed = False\<rparr>)"
    by metis
  with a b show ?thesis by simp
qed

text \<open>
  C8, amended. For every level, a call with no variadic arguments and a template
  without placeholders adds to its stream the tag, the template with each \<open>%%\<close>
  written as a single \<open>%\<close>, and one line feed; what it adds is the tag, the template
  verbatim and the line feed if and only if the template holds no \<open>%\<close> character.
\<close>

theorem verbatim_without_placeholders:
  assumes "\<not> has_placeholder format" and "\<not> failed (w (spec_stream L))"
  shows "DefaultLogger_call conv L Immediate this format [] w
       = Returns (this,
           w(spec_stream L := (w (spec_stream L))
               \<lparr>data := data (w (spec_stream L))
                  @ ''[mavrosflight]['' @ spec_level_name L @ '']: '' @ unescape format
                  @ [CHR 0x0A]\<rparr>))
     \<and> (DefaultLogger_call conv L Immediate this format [] w
          = Returns (this,
              w(spec_stream L := (w (spec_stream L))
                  \<lparr>data := data (w (spec_stream L))
                     @ ''[mavrosflight]['' @ spec_level_name L @ '']: '' @ format
                     @ [CHR 0x0A]\<rparr>))
        \<longleftrightarrow> CHR ''%'' \<notin> set format)"
proof -
  have call: "DefaultLogger_call conv L Immediate this format [] w
       = Returns (this,
           w(spec_stream L := (w (spec_stream L))
               \<lparr>data := data (w (spec_stream L))
                  @ ''[mavrosflight]['' @ spec_level_name L @ '']: '' @ unescape format
                  @ [CHR 0x0A]\<rparr>))"
    using assms(2) by (simp add: log_returns [OF vformat_unescape [OF assms(1)]] spec_line_def)
  have "(w(spec_stream L := (w (spec_stream L))
               \<lparr>data := data (w (spec_stream L))
                  @ ''[mavrosflight]['' @ spec_level_name L @ '']: '' @ unescape format
                  @ [CHR 0x0A]\<rparr>)
        = w(spec_stream L := (w (spec_stream L))
               \<lparr>data := data (w (spec_stream L))
                  @ ''[mavrosflight]['' @ spec_level_name L @ '']: '' @ format
                  @ [CHR 0x0A]\<rparr>))
      \<longleftrightarrow> unescape format = format"
    by (simp only: update_data_eq append_same_eq same_append_eq)
  with call unescape_same_iff [OF assms(1)] show ?thesis
    by (simp only: outcome.inject prod.inject) simp
qed

text \<open>A warning with a plain template, and one with \<open>%%\<close>.\<close>

theorem verbatim_without_placeholders_witness:
  "\<not> has_placeholder ''armed'' \<and> \<not> failed (fresh_world (spec_stream WARN))
   \<and> CHR ''%'' \<notin> set ''armed''
   \<and> DefaultLogger_warn example_conv DefaultLogger ''armed'' [] fresh_world
       = Returns (DefaultLogger,
           fresh_world(stderr := \<lparr>data = ''[mavrosflight][WARN]: armed'' @ [CHR 0x0A], failed = False\<rparr>))
   \<and> \<not> has_placeholder ''100%%'' \<and> CHR ''%'' \<in> set ''100%%''
   \<and> DefaultLogger_warn example_conv DefaultLogger ''100%%'' [] fresh_world
       = Returns (DefaultLogger,
           fresh_world(stderr := \<lparr>data = ''[mavrosflight][WARN]: 100%'' @ [CHR 0x0A], failed = False\<rparr>))"
proof -
  have p: "\<not> has_placeholder ''armed''" and q: "\<not> has_placeholder ''100%%''" by simp_all
  have s: "\<not> failed (fresh_world (spec_stream WARN))"
    by (simp add: fresh_world_def)
  from verbatim_without_placeholders
         [where L = WARN and this = DefaultLogger and w = fresh_world and conv = example_conv, OF p s]
       verbatim_without_placeholders
         [where L = WARN and this = DefaultLogger and w = fresh_world and conv = example_conv, OF q s]
       p q s
  show ?thesis by (simp add: fresh_world_def)
qed

text \<open>
  C9. \<open>DefaultLogger\<close> keeps no state. No call changes the logger object, and after
  any history of calls on the same logger a call adds to each stream the bytes it
  adds when made first: they depend on the level, the template and the arguments
  only.
\<close>

theorem output_independent_of_history:
  assumes "run_calls conv history this w = Returns (this1, w1)"
    and "DefaultLogger_call conv L v this format args w = Returns (this2, w2)"
  shows "this1 = this \<and> this2 = this
     \<and> (\<exists>w3. DefaultLogger_call conv L v this1 format args w1 = Returns (this1, w3)
           \<and> (\<forall>fs. received fs w1 w3 = received fs w w2))"
proof -
  from run_keeps_state [OF assms(1)] have this1: "this1 = this"
    and flags: "failed (w1 (spec_stream L)) = failed (w (spec_stream L))" by simp_all
  from call_keeps_state(1) [OF assms(2)] have this2: "this2 = this" .
  from call_same_flags [where u = w1, OF assms(2) flags] this1 this2 show ?thesis by simp
qed

text \<open>A warning after an info message and an earlier warning.\<close>

theorem output_independent_of_history_witness:
  "run_calls example_conv
       [(INFO, Immediate, ''boot'', []), (WARN, Throttled 0, ''x=%d'', [Arg_int 5])]
       DefaultLogger fresh_world
     = Returns (DefaultLogger,
         emit stderr (''[mavrosflight][WARN]: x=5'' @ endl)
           (emit stdout (''[mavrosflight][INFO]: boot'' @ endl) fresh_world))
   \<and> DefaultLogger_call example_conv WARN Immediate DefaultLogger ''x=%d'' [Arg_int 5] fresh_world
     = Returns (DefaultLogger, emit stderr (''[mavrosflight][WARN]: x=5'' @ endl) fresh_world)
   \<and> (\<exists>w3. DefaultLogger_call example_conv WARN Immediate DefaultLogger ''x=%d'' [Arg_int 5]
               (emit stderr (''[mavrosflight][WARN]: x=5'' @ endl)
                 (emit stdout (''[mavrosflight][INFO]: boot'' @ endl) fresh_world))
             = Returns (DefaultLogger, w3)
           \<and> (\<forall>fs. received fs
                  (emit stderr (''[mavrosflight][WARN]: x=5'' @ endl)
                    (emit stdout (''[mavrosflight][INFO]: boot'' @ endl) fresh_world)) w3
                = received fs fresh_world
                    (emit stderr (''[mavrosflight][WARN]: x=5'' @ endl) fresh_world)))"
proof -
  have h: "run_calls example_conv
       [(INFO, Immediate, ''boot'', []), (WARN, Throttled 0, ''x=%d'', [Arg_int 5])]
       DefaultLogger fresh_world
     = Returns (DefaultLogger,
         emit stderr (''[mavrosflight][WARN]: x=5'' @ endl)
           (emit stdout (''[mavrosflight][INFO]: boot'' @ endl) fresh_world))"
    by (simp add: evaluate)
  have c: "DefaultLogger_call example_conv WARN Immediate DefaultLogger ''x=%d'' [Arg_int 5]
       fresh_world
     = Returns (DefaultLogger, emit stderr (''[mavrosflight][WARN]: x=5'' @ endl) fresh_world)"
    by (simp add: evaluate)
  from output_independent_of_history [OF h c] h c show ?thesis by blast
qed

text \<open>
  C10. A template without conversion specifications, that is without the character
  \<open>%\<close> that introduces each of them, makes a call add to its stream the tag, the
  template and one line feed, whatever arguments accompany it: surplus arguments
  change nothing.
\<close>

theorem surplus_arguments_ignored:
  assumes "CHR ''%'' \<notin> set format" and "\<not> failed (w (spec_stream L))"
  shows "DefaultLogger_call conv L v this format args w
     = Returns (this,
         w(spec_stream L := (w (spec_stream L))
             \<lparr>data := data (w (spec_stream L))
                @ ''[mavrosflight]['' @ spec_level_name L @ '']: '' @ format @ [CHR 0x0A]\<rparr>))"
  using assms(2) by (simp add: log_returns [OF vformat_plain [OF assms(1)]] spec_line_def)

text \<open>A fatal message with two surplus arguments, and with none.\<close>

theorem surplus_arguments_ignored_witness:
  "CHR ''%'' \<notin> set ''armed'' \<and> \<not> failed (fresh_world (spec_stream FATAL))
   \<and> DefaultLogger_fatal example_conv DefaultLogger ''armed'' [Arg_int 7, Arg_cstr ''spare'']
        fresh_world
       = Returns (DefaultLogger,
           fresh_world(stderr := \<lparr>data = ''[mavrosflight][FATAL]: armed'' @ [CHR 0x0A], failed = False\<rparr>))
   \<and> DefaultLogger_fatal example_conv DefaultLogger ''armed'' [] fresh_world
       = Returns (DefaultLogger,
           fresh_world(stderr := \<lparr>data = ''[mavrosflight][FATAL]: armed'' @ [CHR 0x0A], failed = False\<rparr>))"
proof -
  have p: "CHR ''%'' \<notin> set ''armed''" by simp
  have s: "\<not> failed (fresh_world (spec_stream FATAL))"
    by (simp add: fresh_world_def)
  from surplus_arguments_ignored
         [where L = FATAL and v = Immediate and this = DefaultLogger and conv = example_conv
            and args = "[Arg_int 7, Arg_cstr ''spare'']" and w = fresh_world, OF p s]
       surplus_arguments_ignored
         [where L = FATAL and v = Immediate and this = DefaultLogger and conv = example_conv
            and args = "[]" and w = fresh_world, OF p s] p s
  show ?thesis by (simp add: fresh_world_def)
qed

end
